theory Spec2Isabelle
  imports Complex_Main
begin

section \<open>Python errors and the two variants of the program\<close>

text \<open>
  The exceptions that the modelled code paths can raise. \<open>QueueFailure\<close> stands for
  whatever \<open>res_queue.get()\<close> raises when the queue is torn down.
\<close>

datatype py_error = IndexError | ValueError | ZeroDivisionError | TypeError | RuntimeError | QueueFailure

text \<open>
  The repository holds two variants of the same program: \<open>algorithms/a3c.py\<close> (\<open>Basic\<close>)
  and \<open>algorithms/a3c_conv.py\<close> (\<open>Conv\<close>, the richer one, which also reports loss
  diagnostics). Where the two files differ, the model takes the variant as a parameter.
\<close>

datatype variant = Basic | Conv

section \<open>Return estimator (\<open>A3C.sync\<close>, both files)\<close>

text \<open>
  The loop of \<open>A3C.sync\<close> that turns the buffered rewards into targets:
  \<^verbatim>\<open>
  if done: R = 0.
  else:    R = local_network.forward(np_torch_wrap(s_[None, :]))[-1].data.numpy()[0, 0]
  buffer_v_target = []
  for r in br[::-1]:
      R = r + self.gamma * R
      buffer_v_target.append(R)
  buffer_v_target.reverse()
  \<close>
  \<open>returns_loop\<close> is the \<open>for\<close> loop (the list it walks is already reversed, the
  accumulator is appended to), \<open>initial_R\<close> the initialisation of \<open>R\<close>, and
  \<open>buffer_v_target\<close> puts them together with the final \<open>reverse()\<close>. \<open>V\<close> is the value
  that the forward pass on \<open>s_\<close> yields. Arithmetic is over the reals: the rounding of
  Python floats is not modelled.
\<close>

fun returns_loop :: "real \<Rightarrow> real list \<Rightarrow> real \<Rightarrow> real list \<Rightarrow> real list" where
  "returns_loop gamma [] R acc = acc"
| "returns_loop gamma (r # rs) R acc =
     (let R' = r + gamma * R in returns_loop gamma rs R' (acc @ [R']))"

definition initial_R :: "bool \<Rightarrow> real \<Rightarrow> real" where
  "initial_R done V = (if done then 0 else V)"

definition buffer_v_target :: "real \<Rightarrow> bool \<Rightarrow> real \<Rightarrow> real list \<Rightarrow> real list" where
  "buffer_v_target gamma done V br = rev (returns_loop gamma (rev br) (initial_R done V) [])"

section \<open>Loss (\<open>Model.loss_func\<close>)\<close>

text \<open>
  A tensor entry carries its value and, for autograd, its derivative. An entry is
  modelled by a pair: \<open>val\<close> is the value, \<open>der\<close> the derivative of the entry along one
  fixed but arbitrary direction of the model's parameters (the gradient with respect to a
  parameter is the case of that parameter's unit direction). The operations below are
  the ones \<open>loss_func\<close> applies, with the derivative each of them propagates;
  \<open>detach\<close> keeps the value and cuts the derivative, which is what \<open>.detach()\<close> does.
  A constant such as the target \<open>v_t\<close> has derivative \<open>0\<close>.
\<close>

datatype dual = Dual (val: real) (der: real)

definition dconst :: "real \<Rightarrow> dual" where
  "dconst c = Dual c 0"

definition dadd :: "dual \<Rightarrow> dual \<Rightarrow> dual" where
  "dadd x y = Dual (val x + val y) (der x + der y)"

definition dsub :: "dual \<Rightarrow> dual \<Rightarrow> dual" where
  "dsub x y = Dual (val x - val y) (der x - der y)"

definition dmul :: "dual \<Rightarrow> dual \<Rightarrow> dual" where
  "dmul x y = Dual (val x * val y) (der x * val y + val x * der y)"

definition dneg :: "dual \<Rightarrow> dual" where
  "dneg x = Dual (- val x) (- der x)"

text \<open>\<open>x.pow(2)\<close>.\<close>

definition dpow2 :: "dual \<Rightarrow> dual" where
  "dpow2 x = Dual ((val x)\<^sup>2) (2 * val x * der x)"

definition detach :: "dual \<Rightarrow> dual" where
  "detach x = Dual (val x) 0"

text \<open>\<open>.mean()\<close> over all entries of a tensor, given as the list of its entries.\<close>

definition dmean :: "dual list \<Rightarrow> dual" where
  "dmean xs = Dual (sum_list (map val xs) / real (length xs)) (sum_list (map der xs) / real (length xs))"

text \<open>
  \<open>a3c.py\<close>:
  \<^verbatim>\<open>
  def loss_func(self, s, a, v_t):
      self.train()
      logits, values = self.forward(s)
      td = v_t - values
      c_loss = td.pow(2)
      probs = F.softmax(logits, dim=1)
      m = self.distribution(probs)
      exp_v = m.log_prob(a) * td.detach().squeeze()
      a_loss = -exp_v
      total_loss = (c_loss + a_loss).mean()
      return total_loss
  \<close>
  The layers behind \<open>self.forward\<close> are opaque: \<open>fwd\<close> is the result of \<open>self.forward(s)\<close>,
  one pair (row of logits, value) per state of the batch. \<open>softmax\<close> is \<open>F.softmax\<close> on
  one row and \<open>log_prob\<close> is \<open>Categorical(probs).log_prob\<close> on one row and one action;
  both belong to torch and are parameters of the model.

  Shapes: \<open>values\<close>, \<open>v_t\<close>, \<open>td\<close> and \<open>c_loss\<close> have shape \<open>(N, 1)\<close>, while
  \<open>td.detach().squeeze()\<close>, \<open>m.log_prob(a)\<close> and \<open>a_loss\<close> have shape \<open>(N,)\<close>. So
  \<open>c_loss + a_loss\<close> broadcasts to the \<open>N \<times> N\<close> matrix whose entry \<open>(i, j)\<close> is
  \<open>c_loss[i] + a_loss[j]\<close>, and \<open>.mean()\<close> runs over its \<open>N\<^sup>2\<close> entries; that is what
  \<open>total_loss\<close> below computes. The lists are zipped: the model covers batches whose
  states, actions and targets have the same length, which is what \<open>sync\<close> passes
  (for other lengths torch broadcasts or raises, which is not modelled).
\<close>

definition loss_func :: "(dual list \<Rightarrow> dual list) \<Rightarrow> (dual list \<Rightarrow> nat \<Rightarrow> dual)
    \<Rightarrow> (dual list \<times> dual) list \<Rightarrow> nat list \<Rightarrow> real list \<Rightarrow> dual" where
  "loss_func softmax log_prob fwd a v_t =
     (let logits = map fst fwd;
          values = map snd fwd;
          td = map2 (\<lambda>t x. dsub (dconst t) x) v_t values;
          c_loss = map dpow2 td;
          probs = map softmax logits;
          exp_v = map2 dmul (map2 log_prob probs a) (map detach td);
          a_loss = map dneg exp_v;
          total_loss = dmean (concat (map (\<lambda>c. map (\<lambda>p. dadd c p) a_loss) c_loss))
      in total_loss)"

text \<open>
  \<open>a3c_conv.py\<close>: the same computation under other names, returning
  \<^verbatim>\<open>
  return total_loss, value_loss.detach().mean(), policy_loss.detach().mean(), advantage.detach().mean()
  \<close>
\<close>

definition loss_func_conv :: "(dual list \<Rightarrow> dual list) \<Rightarrow> (dual list \<Rightarrow> nat \<Rightarrow> dual)
    \<Rightarrow> (dual list \<times> dual) list \<Rightarrow> nat list \<Rightarrow> real list \<Rightarrow> dual \<times> dual \<times> dual \<times> dual" where
  "loss_func_conv softmax log_prob fwd actions target_values =
     (let logits = map fst fwd;
          values = map snd fwd;
          advantage = map2 (\<lambda>t x. dsub (dconst t) x) target_values values;
          value_loss = map dpow2 advantage;
          probs = map softmax logits;
          exp_v = map2 dmul (map2 log_prob probs actions) (map detach advantage);
          policy_loss = map dneg exp_v;
          total_loss = dmean (concat (map (\<lambda>c. map (\<lambda>p. dadd c p) policy_loss) value_loss))
      in (total_loss, dmean (map detach value_loss), dmean (map detach policy_loss),
          dmean (map detach advantage)))"


section \<open>Synchronization (\<open>A3C.sync\<close>)\<close>

text \<open>
  A network is given by its \<open>state_dict()\<close>: the parameter tensors under their names, in
  the order of the module. A tensor is its shape and its entries. (\<open>train()\<close> and
  \<open>eval()\<close> only set a flag that none of these layers reads; it is not modelled.)
\<close>

record tensor =
  shape :: "nat list"
  entries :: "real list"

type_synonym state_dict = "(string \<times> tensor) list"

text \<open>
  \<open>own.load_state_dict(sd)\<close>, strict as by default: it raises \<open>RuntimeError\<close> on a missing
  or unexpected key and on a size mismatch; else every parameter of \<open>own\<close> takes the
  tensor that \<open>sd\<close> holds under the same name.
\<close>

definition load_state_dict :: "state_dict \<Rightarrow> state_dict \<Rightarrow> py_error + state_dict" where
  "load_state_dict own sd =
     (if set (map fst own) = set (map fst sd)
         \<and> list_all (\<lambda>(k, t). map_option shape (map_of sd k) = Some (shape t)) own
      then Inr (map (\<lambda>(k, t). (k, case map_of sd k of Some t' \<Rightarrow> t' | None \<Rightarrow> t)) own)
      else Inl RuntimeError)"

text \<open>
  What \<open>sync\<close> touches on the coordinator's side: \<open>self.global_network\<close>,
  \<open>self.optimizer\<close> (a \<open>SharedRMSprop\<close> from \<open>utils\<close>, which is not among the sources: its
  state is the type \<open>'o\<close>), and the gradient slots \<open>gp._grad\<close> of the global parameters
  (\<open>'g\<close> is the type of a set of gradient tensors).
\<close>

record ('o, 'g) global_state =
  global_network :: state_dict
  optimizer :: 'o
  global_grad :: "'g option"

text \<open>
  The opaque operations \<open>sync\<close> relies on: the forward pass of the network with the given
  parameters on one state (logits and value), torch's softmax and log-probability,
  \<open>loss.backward()\<close> (the gradients of the loss with respect to the local parameters,
  as they stand in \<open>lp.grad\<close> afterwards), and \<open>self.optimizer.step()\<close>.
\<close>

record ('s, 'o, 'g) torch_ops =
  forward :: "state_dict \<Rightarrow> 's \<Rightarrow> dual list \<times> dual"
  softmax :: "dual list \<Rightarrow> dual list"
  log_prob :: "dual list \<Rightarrow> nat \<Rightarrow> dual"
  backward :: "state_dict \<Rightarrow> 's list \<Rightarrow> nat list \<Rightarrow> real list \<Rightarrow> 'g"
  opt_step :: "'o \<Rightarrow> state_dict \<Rightarrow> 'g \<Rightarrow> 'o \<times> state_dict"

text \<open>
  What \<open>sync\<close> returns: nothing in \<open>a3c.py\<close> (the function has no \<open>return\<close>, so the call
  evaluates to \<open>None\<close>), and
  \<open>(loss.detach(), mean_value_loss, mean_policy_loss, mean_advantage)\<close> in \<open>a3c_conv.py\<close>.
\<close>

type_synonym sync_return = "(real \<times> real \<times> real \<times> real) option"

text \<open>
  \<^verbatim>\<open>
  def sync(self, local_network, done, s_, bs, ba, br):
      ... R and buffer_v_target as above ...
      loss = local_network.loss_func(
          np_torch_wrap(np.vstack(bs)),
          np_torch_wrap(np.array(ba), dtype=np.int64) if ba[0].dtype == np.int64
              else np_torch_wrap(np.vstack(ba)),
          np_torch_wrap(np.array(buffer_v_target)[:, None]))
      self.optimizer.zero_grad()
      loss.backward()
      for lp, gp in zip(local_network.parameters(), self.global_network.parameters()):
          gp._grad = lp.grad
      self.optimizer.step()
      local_network.load_state_dict(self.global_network.state_dict())
  \<close>
  \<open>np.vstack(bs)\<close> raises \<open>ValueError\<close> on an empty list (\<open>a3c_conv.py\<close> uses
  \<open>np.array(buffer_state)\<close>, which does not), and \<open>ba[0]\<close> raises \<open>IndexError\<close> on an
  empty list. The sampled actions are \<open>numpy.int64\<close>, so the first branch of the
  conditional is the one taken. In \<open>a3c.py\<close> the loss only feeds \<open>loss.backward()\<close>,
  which is opaque here, so the model of that variant does not name it. The gradient
  slot is cleared by \<open>zero_grad()\<close> and filled by the transplant. The call is modelled as
  it runs on its own: the steps of other workers between its statements are not part of
  the model.
\<close>

definition sync :: "variant \<Rightarrow> ('s, 'o, 'g) torch_ops \<Rightarrow> real \<Rightarrow> state_dict \<Rightarrow> bool \<Rightarrow> 's
    \<Rightarrow> 's list \<Rightarrow> nat list \<Rightarrow> real list \<Rightarrow> ('o, 'g) global_state
    \<Rightarrow> py_error + sync_return \<times> state_dict \<times> ('o, 'g) global_state" where
  "sync v T gamma local_network done s' bs ba br G =
     (let target = buffer_v_target gamma done (val (snd (forward T local_network s'))) br in
      if v = Basic \<and> bs = [] then Inl ValueError
      else if ba = [] then Inl IndexError
      else
        let fwd = map (forward T local_network) bs;
            ret = (case v of
                     Basic \<Rightarrow> None
                   | Conv \<Rightarrow>
                       (case loss_func_conv (softmax T) (log_prob T) fwd ba target of
                          (loss, mean_value_loss, mean_policy_loss, mean_advantage) \<Rightarrow>
                            Some (val loss, val mean_value_loss, val mean_policy_loss,
                                  val mean_advantage)));
            G1 = G\<lparr>global_grad := None\<rparr>;
            grad = backward T local_network bs ba target;
            G2 = G1\<lparr>global_grad := Some grad\<rparr>;
            stepped = opt_step T (optimizer G2) (global_network G2) grad;
            G3 = G2\<lparr>optimizer := fst stepped, global_network := snd stepped\<rparr>
        in case load_state_dict local_network (global_network G3) of
             Inl e \<Rightarrow> Inl e
           | Inr local' \<Rightarrow> Inr (ret, local', G3))"


section \<open>Results channel and shared counters\<close>

text \<open>
  The dictionary that \<open>A3C.checkpoint\<close> puts on \<open>res_queue\<close>. The key \<open>"episode"\<close> exists
  only in \<open>a3c.py\<close>, the diagnostics (\<open>mean_loss\<close>, \<open>mean_value_loss\<close>, \<open>mean_policy_loss\<close>,
  \<open>mean_advantage\<close>, \<open>gradient_updates\<close>) only in \<open>a3c_conv.py\<close>. The shutdown sentinel is
  Python's \<open>None\<close>, so a queue item is a \<open>result_record option\<close>.
\<close>

record result_record =
  worker_name :: string
  reward :: real
  r_episode :: "int option"
  episode_length :: nat
  diagnostics :: "(real \<times> real \<times> real \<times> real \<times> nat) option"

text \<open>
  \<open>global_ep_counter\<close> (\<open>mp.Value('i', ...)\<close>), \<open>global_ep_reward\<close> (\<open>mp.Value('d', 0.)\<close>)
  and the queue. The counter is a C \<open>int\<close> in shared memory; the model takes it as an
  integer, which covers runs of fewer than \<open>2\<^sup>3\<^sup>1\<close> episodes.
\<close>

record shared =
  global_ep_counter :: int
  global_ep_reward :: real
  res_queue :: "result_record option list"

text \<open>
  \<^verbatim>\<open>
  with self.global_ep_counter.get_lock():
      self.global_ep_counter.value += 1
  with self.global_ep_reward.get_lock():
      self.global_ep_reward.value = episode_reward
  self.res_queue.put({"worker_name": worker_name, "reward": self.global_ep_reward.value,
                      "episode": self.global_ep_counter.value,        # a3c.py
                      "episode_length": episode_length,
                      "mean_loss": mean_loss, ...})                   # a3c_conv.py
  \<close>
\<close>

definition checkpoint :: "variant \<Rightarrow> shared \<Rightarrow> string \<Rightarrow> real \<Rightarrow> nat
    \<Rightarrow> (real \<times> real \<times> real \<times> real \<times> nat) option \<Rightarrow> shared" where
  "checkpoint v sh worker episode_rew episode_len diag =
     (let sh1 = sh\<lparr>global_ep_counter := global_ep_counter sh + 1\<rparr>;
          sh2 = sh1\<lparr>global_ep_reward := episode_rew\<rparr>
      in sh2\<lparr>res_queue := res_queue sh2 @
           [Some \<lparr>worker_name = worker, reward = global_ep_reward sh2,
                  r_episode = (case v of Basic \<Rightarrow> Some (global_ep_counter sh2) | Conv \<Rightarrow> None),
                  episode_length = episode_len,
                  diagnostics = (case v of Basic \<Rightarrow> None | Conv \<Rightarrow> diag)\<rparr>]\<rparr>)"

section \<open>Worker (\<open>Worker.run\<close>)\<close>

text \<open>
  What a worker works with. \<open>'e\<close> is the state of its private surroundings (the
  environment simulator and the random number generator), \<open>'s\<close> an observation, \<open>'n\<close> its
  local network, \<open>'G\<close> whatever the \<open>f_sync\<close> callback reads and writes besides.
  \<open>choose_action\<close> is \<open>Model.choose_action\<close>: a draw from the categorical distribution of
  the policy head, an index from \<open>0\<close> on. \<open>synchronize\<close> is the callback \<open>f_sync\<close>; the
  coordinator passes \<open>self.sync\<close>. \<open>env.render()\<close> changes nothing that the model holds
  and is left out.
\<close>

record ('e, 's, 'n, 'G) collaborators =
  env_reset :: "'e \<Rightarrow> 'e \<times> 's"
  env_step :: "'e \<Rightarrow> nat \<Rightarrow> 'e \<times> 's \<times> real \<times> bool"
  n_actions :: nat
  choose_action :: "'n \<Rightarrow> 's \<Rightarrow> 'e \<Rightarrow> nat \<times> 'e"
  synchronize :: "'n \<Rightarrow> bool \<Rightarrow> 's \<Rightarrow> 's list \<Rightarrow> nat list \<Rightarrow> real list \<Rightarrow> 'G
    \<Rightarrow> py_error + sync_return \<times> 'n \<times> 'G"

text \<open>\<open>self.name\<close>, \<open>self.max_eps\<close>, \<open>self.max_length\<close>, \<open>self.update_global_delay\<close>.\<close>

record config =
  name :: string
  max_eps :: int
  max_length :: nat
  update_global_delay :: nat

text \<open>
  The variables of \<open>run\<close>. The four totals and \<open>gradient_updates\<close> exist in
  \<open>a3c_conv.py\<close> only. The last two fields are instrumentation, not variables of the
  source: \<open>env_calls\<close> lists the action indices passed to \<open>env.step\<close> so far and
  \<open>sync_calls\<close> the arguments \<open>(done, bs, ba, br)\<close> of the calls of \<open>self.synchronize\<close>.
\<close>

record ('e, 's, 'n, 'G) worker =
  thread_step :: nat
  episode_step :: nat
  episode_reward :: real
  state :: 's
  buffer_s :: "'s list"
  buffer_a :: "nat list"
  buffer_r :: "real list"
  total_loss :: real
  total_value_loss :: real
  total_policy_loss :: real
  total_advantage :: real
  gradient_updates :: nat
  local_network :: 'n
  world :: 'e
  glob :: 'G
  env_calls :: "nat list"
  sync_calls :: "(bool \<times> 's list \<times> nat list \<times> real list) list"

text \<open>
  How a piece of the loop ends: with an exception, with \<open>break\<close>, or by running to its
  end. Each carries the state reached.
\<close>

datatype 'w flow = Raise py_error 'w | Break 'w | Next 'w

fun flow_state :: "'w flow \<Rightarrow> 'w" where
  "flow_state (Raise e w) = w"
| "flow_state (Break w) = w"
| "flow_state (Next w) = w"

text \<open>\<open>action if action < self.env.n_actions else 0\<close>, the argument of \<open>env.step\<close>.\<close>

definition env_action :: "('e, 's, 'n, 'G) collaborators \<Rightarrow> nat \<Rightarrow> nat" where
  "env_action C action = (if action < n_actions C then action else 0)"

text \<open>
  What the worker does with the value of \<open>self.synchronize(...)\<close>. \<open>a3c.py\<close> drops it.
  \<open>a3c_conv.py\<close> unpacks four values (unpacking \<open>None\<close> raises \<open>TypeError\<close>) and then
  \<^verbatim>\<open>
  gradient_updates += 1
  total_loss += loss
  total_value_loss += mean_value_loss
  total_policy_loss += mean_policy_loss
  total_advantage += mean_advantage
  \<close>
\<close>

definition after_sync :: "variant \<Rightarrow> sync_return \<Rightarrow> ('e, 's, 'n, 'G) worker
    \<Rightarrow> py_error + ('e, 's, 'n, 'G) worker" where
  "after_sync v ret w =
     (case v of
        Basic \<Rightarrow> Inr w
      | Conv \<Rightarrow>
          (case ret of
             None \<Rightarrow> Inl TypeError
           | Some (loss, mean_value_loss, mean_policy_loss, mean_advantage) \<Rightarrow>
               Inr (w\<lparr>gradient_updates := gradient_updates w + 1,
                      total_loss := total_loss w + loss,
                      total_value_loss := total_value_loss w + mean_value_loss,
                      total_policy_loss := total_policy_loss w + mean_policy_loss,
                      total_advantage := total_advantage w + mean_advantage\<rparr>)))"

text \<open>
  One pass through the body of the inner \<open>while\<close>:
  \<^verbatim>\<open>
  action = self.local_network.choose_action(np_torch_wrap(state[None, :]))
  new_state, r, done, _ = self.env.step(action if action < self.env.n_actions else 0)
  if done: r = -1
  episode_reward += r
  buffer_a.append(action)
  buffer_s.append(state)
  buffer_r.append(r)
  if thread_step % self.update_global_delay == 0 or done:
      self.synchronize(self.local_network, done, new_state, buffer_s, buffer_a, buffer_r)
      buffer_s, buffer_a, buffer_r = [], [], []
      if done: break
  state = new_state
  thread_step += 1
  episode_step += 1
  \<close>
  \<open>thread_step % self.update_global_delay\<close> is evaluated before \<open>or done\<close> and raises
  \<open>ZeroDivisionError\<close> for a delay of \<open>0\<close>.
\<close>

definition loop_body :: "variant \<Rightarrow> ('e, 's, 'n, 'G) collaborators \<Rightarrow> config
    \<Rightarrow> ('e, 's, 'n, 'G) worker \<Rightarrow> ('e, 's, 'n, 'G) worker flow" where
  "loop_body v C cfg w =
     (case choose_action C (local_network w) (state w) (world w) of (action, e1) \<Rightarrow>
      case env_step C e1 (env_action C action) of (e2, new_state, r0, done) \<Rightarrow>
      let r = (if done then - 1 else r0);
          w1 = w\<lparr>world := e2, env_calls := env_calls w @ [env_action C action],
                 episode_reward := episode_reward w + r,
                 buffer_a := buffer_a w @ [action],
                 buffer_s := buffer_s w @ [state w],
                 buffer_r := buffer_r w @ [r]\<rparr>;
          w_next = (\<lambda>x. x\<lparr>state := new_state, thread_step := thread_step x + 1,
                            episode_step := episode_step x + 1\<rparr>)
      in if update_global_delay cfg = 0 then Raise ZeroDivisionError w1
         else if thread_step w1 mod update_global_delay cfg = 0 \<or> done then
           (let w2 = w1\<lparr>sync_calls := sync_calls w1 @ [(done, buffer_s w1, buffer_a w1, buffer_r w1)]\<rparr>
            in case synchronize C (local_network w2) done new_state (buffer_s w2) (buffer_a w2)
                      (buffer_r w2) (glob w2) of
                 Inl e \<Rightarrow> Raise e w2
               | Inr (ret, net', G') \<Rightarrow>
                   (case after_sync v ret (w2\<lparr>local_network := net', glob := G'\<rparr>) of
                      Inl e \<Rightarrow> Raise e (w2\<lparr>local_network := net', glob := G'\<rparr>)
                    | Inr w3 \<Rightarrow>
                        (let w4 = w3\<lparr>buffer_s := [], buffer_a := [], buffer_r := []\<rparr>
                         in if done then Break w4 else Next (w_next w4))))
         else Next (w_next w1))"

lemma after_sync_episode_step:
  "after_sync v ret w = Inr w' \<Longrightarrow> episode_step w' = episode_step w"
  by (auto simp: after_sync_def split: variant.splits option.splits)

lemma loop_body_episode_step:
  "loop_body v C cfg w = Next w' \<Longrightarrow> episode_step w' = Suc (episode_step w)"
  by (auto simp: loop_body_def Let_def split: prod.splits if_splits sum.splits
      dest!: after_sync_episode_step)

text \<open>\<open>while episode_step < self.max_length: ...\<close>\<close>

function episode_loop :: "variant \<Rightarrow> ('e, 's, 'n, 'G) collaborators \<Rightarrow> config
    \<Rightarrow> ('e, 's, 'n, 'G) worker \<Rightarrow> ('e, 's, 'n, 'G) worker flow" where
  "episode_loop v C cfg w =
     (if episode_step w < max_length cfg then
        (case loop_body v C cfg w of
           Raise e w' \<Rightarrow> Raise e w'
         | Break w' \<Rightarrow> Break w'
         | Next w' \<Rightarrow> episode_loop v C cfg w')
      else Next w)"
  by pat_completeness auto
termination
proof (relation "measure (\<lambda>(v, C, cfg, w). max_length cfg - episode_step w)")
  show "wf (measure (\<lambda>(v, C, cfg, w). max_length cfg - episode_step w))" by simp
next
  fix v :: variant and C :: "('e, 's, 'n, 'G) collaborators" and cfg :: config
    and w w' :: "('e, 's, 'n, 'G) worker"
  assume "episode_step w < max_length cfg" and "loop_body v C cfg w = Next w'"
  then show "((v, C, cfg, w'), (v, C, cfg, w))
      \<in> measure (\<lambda>(v, C, cfg, w). max_length cfg - episode_step w)"
    using loop_body_episode_step [of v C cfg w w'] by simp
qed

declare episode_loop.simps [simp del]

text \<open>
  The head of the outer loop's body: fresh buffers, \<open>episode_reward = 0.\<close>,
  \<open>episode_step = 0\<close>, in \<open>a3c_conv.py\<close> the totals and \<open>gradient_updates = 0\<close>, and
  \<open>state = self.env.reset()\<close>.
\<close>

definition start_episode :: "('e, 's, 'n, 'G) collaborators \<Rightarrow> ('e, 's, 'n, 'G) worker
    \<Rightarrow> ('e, 's, 'n, 'G) worker" where
  "start_episode C w =
     (case env_reset C (world w) of (e1, s) \<Rightarrow>
        w\<lparr>buffer_s := [], buffer_a := [], buffer_r := [], episode_reward := 0, episode_step := 0,
          total_loss := 0, total_value_loss := 0, total_policy_loss := 0, total_advantage := 0,
          gradient_updates := 0, world := e1, state := s\<rparr>)"

text \<open>
  The call after the inner loop. \<open>a3c.py\<close>:
  \<open>self.checkpoint(episode_reward, self.name, episode_step)\<close>. \<open>a3c_conv.py\<close>:
  \<^verbatim>\<open>
  self.checkpoint(self.name, episode_reward, episode_step,
      total_loss / gradient_updates, total_value_loss / gradient_updates,
      total_policy_loss / gradient_updates, total_advantage / gradient_updates,
      gradient_updates)
  \<close>
  With \<open>gradient_updates = 0\<close> the totals are still the integer \<open>0\<close> and the first
  division raises \<open>ZeroDivisionError\<close>.
\<close>

definition report_episode :: "variant \<Rightarrow> config \<Rightarrow> ('e, 's, 'n, 'G) worker \<Rightarrow> shared
    \<Rightarrow> (('e, 's, 'n, 'G) worker \<times> shared) flow" where
  "report_episode v cfg w sh =
     (case v of
        Basic \<Rightarrow> Next (w, checkpoint Basic sh (name cfg) (episode_reward w) (episode_step w) None)
      | Conv \<Rightarrow>
          if gradient_updates w = 0 then Raise ZeroDivisionError (w, sh)
          else Next (w, checkpoint Conv sh (name cfg) (episode_reward w) (episode_step w)
                 (Some (total_loss w / real (gradient_updates w),
                        total_value_loss w / real (gradient_updates w),
                        total_policy_loss w / real (gradient_updates w),
                        total_advantage w / real (gradient_updates w),
                        gradient_updates w))))"

text \<open>One pass through the body of the outer \<open>while\<close>: an episode and its report.\<close>

definition run_episode :: "variant \<Rightarrow> ('e, 's, 'n, 'G) collaborators \<Rightarrow> config
    \<Rightarrow> ('e, 's, 'n, 'G) worker \<times> shared \<Rightarrow> (('e, 's, 'n, 'G) worker \<times> shared) flow" where
  "run_episode v C cfg ws =
     (case ws of (w, sh) \<Rightarrow>
        (case episode_loop v C cfg (start_episode C w) of
           Raise e w' \<Rightarrow> Raise e (w', sh)
         | Break w' \<Rightarrow> report_episode v cfg w' sh
         | Next w' \<Rightarrow> report_episode v cfg w' sh))"

lemma run_episode_counter:
  assumes "run_episode v C cfg (w, sh) = Next (w', sh')"
  shows "global_ep_counter sh' = global_ep_counter sh + 1"
  using assms
  by (auto simp: run_episode_def report_episode_def checkpoint_def Let_def
      split: flow.splits variant.splits if_splits)

text \<open>
  \<^verbatim>\<open>
  while self.global_ep_counter.value < self.max_eps:
      ... one episode ...
  self.res_queue.put(None)
  \<close>
  for a worker on its own: the increments of the counter by other workers are not
  modelled.
\<close>

function worker_loop :: "variant \<Rightarrow> ('e, 's, 'n, 'G) collaborators \<Rightarrow> config
    \<Rightarrow> ('e, 's, 'n, 'G) worker \<times> shared \<Rightarrow> (('e, 's, 'n, 'G) worker \<times> shared) flow" where
  "worker_loop v C cfg ws =
     (if global_ep_counter (snd ws) < max_eps cfg then
        (case run_episode v C cfg ws of
           Raise e ws' \<Rightarrow> Raise e ws'
         | Break ws' \<Rightarrow> Break ws'
         | Next ws' \<Rightarrow> worker_loop v C cfg ws')
      else Next (fst ws, (snd ws)\<lparr>res_queue := res_queue (snd ws) @ [None]\<rparr>))"
  by pat_completeness auto
termination
proof (relation "measure (\<lambda>(v, C, cfg, ws). nat (max_eps cfg - global_ep_counter (snd ws)))")
  show "wf (measure (\<lambda>(v, C, cfg, ws). nat (max_eps cfg - global_ep_counter (snd ws))))" by simp
next
  fix v :: variant and C :: "('e, 's, 'n, 'G) collaborators" and cfg :: config
    and ws ws' :: "('e, 's, 'n, 'G) worker \<times> shared"
  assume less: "global_ep_counter (snd ws) < max_eps cfg" and "run_episode v C cfg ws = Next ws'"
  then have "global_ep_counter (snd ws') = global_ep_counter (snd ws) + 1"
    using run_episode_counter [of v C cfg "fst ws" "snd ws" "fst ws'" "snd ws'"] by simp
  with less show "((v, C, cfg, ws'), (v, C, cfg, ws))
      \<in> measure (\<lambda>(v, C, cfg, ws). nat (max_eps cfg - global_ep_counter (snd ws)))"
    by simp
qed

declare worker_loop.simps [simp del]

text \<open>\<open>Worker.run\<close>: \<open>thread_step = 1\<close>, then the loop.\<close>

definition run :: "variant \<Rightarrow> ('e, 's, 'n, 'G) collaborators \<Rightarrow> config
    \<Rightarrow> ('e, 's, 'n, 'G) worker \<Rightarrow> shared \<Rightarrow> (('e, 's, 'n, 'G) worker \<times> shared) flow" where
  "run v C cfg w sh = worker_loop v C cfg (w\<lparr>thread_step := 1\<rparr>, sh)"


section \<open>Coordinator: the result-draining loop (\<open>A3C.run\<close>)\<close>




section \<open>Coordinator: the environment factory of a worker (\<open>A3C.__init__\<close>)\<close>

text \<open>
  \<open>env_factory\<close> is either one factory or a Python list of factories
  (\<open>type(env_factory) is list\<close>).
\<close>

datatype 'f env_factories = Single 'f | Many "'f list"

text \<open>
  A uniform draw is modelled by the list of its equally likely outcomes, or by the error
  the call raises. \<open>random.randint(a, b)\<close> draws from \<open>a..b\<close>, both ends included;
  \<open>numpy.random.randint(low, high)\<close> draws from \<open>low..high - 1\<close>, the upper end excluded.
  Both raise \<open>ValueError\<close> on an empty range.
\<close>

definition py_randint :: "int \<Rightarrow> int \<Rightarrow> py_error + int list" where
  "py_randint a b = (if b < a then Inl ValueError else Inr [a..b])"

definition np_randint :: "int \<Rightarrow> int \<Rightarrow> py_error + int list" where
  "np_randint low high = (if high \<le> low then Inl ValueError else Inr [low..high - 1])"

text \<open>
  \<open>a3c.py\<close>: \<open>env_factory[random.randint(0, len(env_factory) - 1)]\<close>;
  \<open>a3c_conv.py\<close>: \<open>env_factory[np.random.randint(0, len(env_factory) - 1)]\<close>.
\<close>

definition worker_env_index :: "variant \<Rightarrow> 'f list \<Rightarrow> py_error + int list" where
  "worker_env_index v fs =
     (case v of
        Basic \<Rightarrow> py_randint 0 (int (length fs) - 1)
      | Conv \<Rightarrow> np_randint 0 (int (length fs) - 1))"

text \<open>The equally likely factories of one worker.\<close>

definition worker_env_factory :: "variant \<Rightarrow> 'f env_factories \<Rightarrow> py_error + 'f list" where
  "worker_env_factory v ef =
     (case ef of
        Single f \<Rightarrow> Inr [f]
      | Many fs \<Rightarrow>
          (case worker_env_index v fs of
             Inl e \<Rightarrow> Inl e
           | Inr js \<Rightarrow> Inr (map (\<lambda>i. fs ! nat i) js)))"

section \<open>Notions used to state the properties\<close>

text \<open>The backup \<open>r\<^sub>0 + \<gamma> (r\<^sub>1 + \<gamma> (\<dots> + \<gamma> B))\<close> of a reward list.\<close>

fun backup :: "real \<Rightarrow> real \<Rightarrow> real list \<Rightarrow> real" where
  "backup gamma B [] = B"
| "backup gamma B (r # rs) = r + gamma * backup gamma B rs"

text \<open>
  The loss as the specification words it, for sample \<open>i\<close> of a batch:
  advantage = target return - predicted value; value loss = advantage squared; policy
  loss = - log-probability of the action taken \<times> advantage, with the advantage a
  constant in the policy term. \<open>batch_loss\<close> is the mean over the batch of value loss
  plus policy loss. Its derivative is the mean of the derivatives of the two terms: the
  value term contributes \<open>2 \<cdot> advantage \<cdot> d advantage\<close> with \<open>d advantage = - d value\<close>,
  the policy term contributes \<open>- d log-probability \<cdot> advantage\<close> and nothing through the
  advantage.
\<close>

definition advantage_at :: "(dual list \<times> dual) list \<Rightarrow> real list \<Rightarrow> nat \<Rightarrow> real" where
  "advantage_at fwd v_t i = v_t ! i - val (snd (fwd ! i))"

definition action_log_prob :: "(dual list \<Rightarrow> dual list) \<Rightarrow> (dual list \<Rightarrow> nat \<Rightarrow> dual)
    \<Rightarrow> (dual list \<times> dual) list \<Rightarrow> nat list \<Rightarrow> nat \<Rightarrow> dual" where
  "action_log_prob sm lg fwd a i = lg (sm (fst (fwd ! i))) (a ! i)"

definition batch_loss :: "(dual list \<Rightarrow> dual list) \<Rightarrow> (dual list \<Rightarrow> nat \<Rightarrow> dual)
    \<Rightarrow> (dual list \<times> dual) list \<Rightarrow> nat list \<Rightarrow> real list \<Rightarrow> dual" where
  "batch_loss sm lg fwd a v_t =
     Dual ((\<Sum>i<length a. (advantage_at fwd v_t i)\<^sup>2
              + - (val (action_log_prob sm lg fwd a i) * advantage_at fwd v_t i))
            / real (length a))
          ((\<Sum>i<length a. 2 * advantage_at fwd v_t i * (- der (snd (fwd ! i)))
              + - (der (action_log_prob sm lg fwd a i) * advantage_at fwd v_t i))
            / real (length a))"



text \<open>
  A call of \<open>synchronize\<close> with a non-empty trajectory: the three buffers are non-empty
  and of one length.
\<close>

definition good_call :: "bool \<times> 's list \<times> nat list \<times> real list \<Rightarrow> bool" where
  "good_call c = (case c of (d, bs, ba, br) \<Rightarrow>
     bs \<noteq> [] \<and> ba \<noteq> [] \<and> br \<noteq> [] \<and> length bs = length ba \<and> length ba = length br)"

definition buffers_aligned :: "('e, 's, 'n, 'G) worker \<Rightarrow> bool" where
  "buffers_aligned w = (length (buffer_s w) = length (buffer_a w) \<and> length (buffer_a w) = length (buffer_r w))"

text \<open>
  From \<open>w\<close> to \<open>w'\<close> the two logs have only grown, every call of \<open>synchronize\<close> added had
  a non-empty trajectory, and every action index passed to \<open>env.step\<close> was below
  \<open>n_actions\<close> (unless the environment has no action at all).
\<close>

definition calls_extend :: "('e, 's, 'n, 'G) collaborators \<Rightarrow> ('e, 's, 'n, 'G) worker
    \<Rightarrow> ('e, 's, 'n, 'G) worker \<Rightarrow> bool" where
  "calls_extend C w w' =
     (take (length (sync_calls w)) (sync_calls w') = sync_calls w
      \<and> list_all good_call (drop (length (sync_calls w)) (sync_calls w'))
      \<and> take (length (env_calls w)) (env_calls w') = env_calls w
      \<and> list_all (\<lambda>a. a < n_actions C \<or> n_actions C = 0) (drop (length (env_calls w)) (env_calls w')))"


section \<open>Example runs\<close>





text \<open>
  A batch of two samples with two actions each; the rows of \<open>fwd\<close> hold log-scores that
  the example's \<open>softmax\<close> leaves as they are and its \<open>log_prob\<close> reads off.
\<close>

definition toy_softmax :: "dual list \<Rightarrow> dual list" where
  "toy_softmax xs = xs"

definition toy_log_prob :: "dual list \<Rightarrow> nat \<Rightarrow> dual" where
  "toy_log_prob ps k = ps ! k"

definition toy_fwd :: "(dual list \<times> dual) list" where
  "toy_fwd = [([Dual (-1) 1, Dual (-2) 0], Dual 1 1), ([Dual (-2) 0, Dual (-1) 3], Dual 2 0)]"

text \<open>
  A network of two parameters whose optimizer subtracts the gradient from every entry
  and counts its steps. The local and the global \<open>state_dict\<close> list the parameters in
  different orders.
\<close>

definition toy_ops :: "(nat, nat, real) torch_ops" where
  "toy_ops = \<lparr>forward = (\<lambda>p s. ([Dual 0 0, Dual 0 0], Dual (real s) 0)),
     softmax = toy_softmax, log_prob = toy_log_prob,
     backward = (\<lambda>p bs ba vt. sum_list vt),
     opt_step = (\<lambda>n p g. (Suc n, map (\<lambda>(k, t). (k, t\<lparr>entries := map (\<lambda>x. x - g) (entries t)\<rparr>)) p))\<rparr>"

definition toy_local :: state_dict where
  "toy_local = [(''v2.weight'', \<lparr>shape = [2], entries = [0, 0]\<rparr>),
                (''v2.bias'', \<lparr>shape = [1], entries = [0]\<rparr>)]"

definition toy_global :: "(nat, real) global_state" where
  "toy_global = \<lparr>global_network = [(''v2.bias'', \<lparr>shape = [1], entries = [4]\<rparr>),
                                    (''v2.weight'', \<lparr>shape = [2], entries = [5, 6]\<rparr>)],
     optimizer = 0, global_grad = None\<rparr>"

definition toy_local' :: state_dict where
  "toy_local' = [(''v2.weight'', \<lparr>shape = [2], entries = [4, 5]\<rparr>),
                 (''v2.bias'', \<lparr>shape = [1], entries = [3]\<rparr>)]"

definition toy_global' :: "(nat, real) global_state" where
  "toy_global' = \<lparr>global_network = [(''v2.bias'', \<lparr>shape = [1], entries = [3]\<rparr>),
                                     (''v2.weight'', \<lparr>shape = [2], entries = [4, 5]\<rparr>)],
     optimizer = 1, global_grad = Some 1\<rparr>"

text \<open>
  An environment that never reports \<open>done\<close> and has two actions, a policy head that always
  draws index \<open>5\<close>, and a \<open>synchronize\<close> that counts its calls. The episode cap is two
  steps; with a delay of \<open>20\<close> no step of the episode synchronizes, with a delay of \<open>2\<close>
  the second one does.
\<close>

definition never_done :: "(nat, nat, unit, nat) collaborators" where
  "never_done = \<lparr>env_reset = (\<lambda>e. (e, 0)), env_step = (\<lambda>e a. (Suc e, Suc e, 1, False)),
     n_actions = 2, choose_action = (\<lambda>n s e. (5, e)),
     synchronize = (\<lambda>n d s bs ba br G. Inr (Some (1, 1, 1, 1), n, Suc G))\<rparr>"

definition cfg_no_sync :: config where
  "cfg_no_sync = \<lparr>name = ''w0'', max_eps = 1, max_length = 2, update_global_delay = 20\<rparr>"


definition worker0 :: "(nat, nat, unit, nat) worker" where
  "worker0 = \<lparr>thread_step = 1, episode_step = 0, episode_reward = 0, state = 0,
     buffer_s = [], buffer_a = [], buffer_r = [], total_loss = 0, total_value_loss = 0,
     total_policy_loss = 0, total_advantage = 0, gradient_updates = 0, local_network = (),
     world = 0, glob = 0, env_calls = [], sync_calls = []\<rparr>"

definition shared0 :: shared where
  "shared0 = \<lparr>global_ep_counter = 0, global_ep_reward = 0, res_queue = []\<rparr>"

definition worker_no_sync :: "(nat, nat, unit, nat) worker" where
  "worker_no_sync = worker0\<lparr>thread_step := 3, episode_step := 2, episode_reward := 2, state := 2,
     buffer_s := [0, 1], buffer_a := [5, 5], buffer_r := [1, 1], world := 2, env_calls := [0, 0]\<rparr>"



text \<open>
  A worker of \<open>a3c_conv.py\<close> whose \<open>synchronize\<close> is \<open>sync\<close> on the example network, in an
  environment that reports \<open>done\<close> at the second step.
\<close>

definition done_at_two :: "(nat, nat, state_dict, (nat, real) global_state) collaborators" where
  "done_at_two = \<lparr>env_reset = (\<lambda>e. (0, 0)), env_step = (\<lambda>e a. (Suc e, Suc e, 1, 1 \<le> e)),
     n_actions = 2, choose_action = (\<lambda>n s e. (1, e)),
     synchronize = sync Conv toy_ops (1 / 2)\<rparr>"

definition worker_start :: "(nat, nat, state_dict, (nat, real) global_state) worker" where
  "worker_start = \<lparr>thread_step = 1, episode_step = 0, episode_reward = 0, state = 0,
     buffer_s = [], buffer_a = [], buffer_r = [], total_loss = 0, total_value_loss = 0,
     total_policy_loss = 0, total_advantage = 0, gradient_updates = 0, local_network = toy_local,
     world = 0, glob = toy_global, env_calls = [], sync_calls = []\<rparr>"

section \<open>Properties of the return estimator\<close>

lemma returns_loop_acc:
  "returns_loop gamma rs R acc = acc @ returns_loop gamma rs R []"
proof (induction rs arbitrary: R acc)
  case Nil
  show ?case by simp
next
  case (Cons r rs)
  have "returns_loop gamma (r # rs) R acc = returns_loop gamma rs (r + gamma * R) (acc @ [r + gamma * R])"
    by (simp add: Let_def)
  also have "\<dots> = (acc @ [r + gamma * R]) @ returns_loop gamma rs (r + gamma * R) []"
    by (rule Cons.IH)
  also have "\<dots> = acc @ returns_loop gamma rs (r + gamma * R) [r + gamma * R]"
    using Cons.IH [of "r + gamma * R" "[r + gamma * R]"] by simp
  finally show ?case by (simp add: Let_def)
qed

lemma backup_snoc:
  "backup gamma B (rs @ [r]) = backup gamma (r + gamma * B) rs"
  by (induction rs) simp_all

lemma returns_loop_backup:
  "rev (returns_loop gamma (rev br) R []) = map (\<lambda>i. backup gamma R (drop i br)) [0..<length br]"
proof (induction br arbitrary: R rule: rev_induct)
  case Nil
  show ?case by simp
next
  case (snoc r br)
  let ?R = "r + gamma * R"
  have "returns_loop gamma (rev (br @ [r])) R [] = [?R] @ returns_loop gamma (rev br) ?R []"
    using returns_loop_acc [of gamma "rev br" ?R "[?R]"] by (simp add: Let_def)
  then have "rev (returns_loop gamma (rev (br @ [r])) R [])
      = map (\<lambda>i. backup gamma ?R (drop i br)) [0..<length br] @ [?R]"
    using snoc.IH [of ?R] by simp
  also have "\<dots> = map (\<lambda>i. backup gamma R (drop i (br @ [r]))) [0..<length br] @ [?R]"
    by (simp add: backup_snoc)
  also have "\<dots> = map (\<lambda>i. backup gamma R (drop i (br @ [r]))) [0..<length (br @ [r])]"
    by simp
  finally show ?case .
qed

lemma backup_sum:
  "backup gamma B rs = (\<Sum>j<length rs. gamma ^ j * rs ! j) + gamma ^ length rs * B"
proof (induction rs)
  case Nil
  show ?case by simp
next
  case (Cons r rs)
  have "(\<Sum>j<Suc (length rs). gamma ^ j * (r # rs) ! j)
      = gamma ^ 0 * (r # rs) ! 0 + (\<Sum>j<length rs. gamma ^ Suc j * (r # rs) ! Suc j)"
    by (rule sum.lessThan_Suc_shift)
  then have "(\<Sum>j<length (r # rs). gamma ^ j * (r # rs) ! j)
      = r + (\<Sum>j<length rs. gamma ^ Suc j * rs ! j)"
    by simp
  also have "\<dots> = r + gamma * (\<Sum>j<length rs. gamma ^ j * rs ! j)"
    by (simp add: sum_distrib_left mult.assoc)
  finally show ?case using Cons.IH by (simp add: algebra_simps)
qed

lemma backup_drop:
  assumes "i \<le> length br"
  shows "backup gamma B (drop i br)
    = (\<Sum>j = i..<length br. gamma ^ (j - i) * br ! j) + gamma ^ (length br - i) * B"
proof -
  have "(\<Sum>j<length br - i. gamma ^ j * drop i br ! j) = (\<Sum>j<length br - i. gamma ^ j * br ! (i + j))"
    using assms by (intro sum.cong) simp_all
  also have "\<dots> = (\<Sum>j = i..<length br. gamma ^ (j - i) * br ! j)"
    using assms
    by (intro sum.reindex_bij_witness [of _ "\<lambda>j. j - i" "\<lambda>j. i + j"]) auto
  finally show ?thesis by (simp add: backup_sum)
qed

text \<open>
  Claim C1. For every reward sequence, discount factor, terminal flag and bootstrap value,
  the return estimator of \<open>sync\<close> yields one target per reward, in the rewards' order, and
  the \<open>i\<close>-th target is \<open>r\<^sub>i + \<gamma> r\<^sub>i\<^sub>+\<^sub>1 + \<dots> + \<gamma>\<^sup>k\<^sup>-\<^sup>1\<^sup>-\<^sup>i r\<^sub>k\<^sub>-\<^sub>1 + \<gamma>\<^sup>k\<^sup>-\<^sup>i B\<close> with \<open>B = 0\<close> for a
  terminal cut and \<open>B = V\<close> otherwise; for rewards \<open>[1, 1, 1]\<close>, \<open>\<gamma> = 0.5\<close>, terminal, the
  targets are \<open>[1.75, 1.5, 1.0]\<close>.
\<close>

theorem return_estimator_closed_form:
  "buffer_v_target gamma done V br
     = map (\<lambda>i. (\<Sum>j = i..<length br. gamma ^ (j - i) * br ! j)
                 + gamma ^ (length br - i) * (if done then 0 else V)) [0..<length br]
   \<and> length (buffer_v_target gamma done V br) = length br
   \<and> buffer_v_target (1 / 2) True V [1, 1, 1] = [7 / 4, 3 / 2, 1]"
proof -
  have eq: "buffer_v_target gamma done V br
      = map (\<lambda>i. backup gamma (initial_R done V) (drop i br)) [0..<length br]"
    by (simp add: buffer_v_target_def returns_loop_backup)
  also have "\<dots> = map (\<lambda>i. (\<Sum>j = i..<length br. gamma ^ (j - i) * br ! j)
                 + gamma ^ (length br - i) * (if done then 0 else V)) [0..<length br]"
    by (rule map_cong) (simp_all add: backup_drop initial_R_def)
  finally have closed: "buffer_v_target gamma done V br
     = map (\<lambda>i. (\<Sum>j = i..<length br. gamma ^ (j - i) * br ! j)
                 + gamma ^ (length br - i) * (if done then 0 else V)) [0..<length br]" .
  have len: "length (buffer_v_target gamma done V br) = length br"
    by (simp add: eq)
  have ex: "buffer_v_target (1 / 2) True V [1, 1, 1] = [7 / 4, 3 / 2, 1]"
    by (simp add: buffer_v_target_def initial_R_def Let_def)
  from closed len ex show ?thesis by blast
qed

section \<open>Properties of the loss\<close>

lemma sum_list_broadcast:
  assumes "\<And>c p. f (dadd c p) = f c + f p"
  shows "sum_list (map f (concat (map (\<lambda>c. map (\<lambda>p. dadd c p) ps) cs)))
    = real (length ps) * sum_list (map f cs) + real (length cs) * sum_list (map (f :: dual \<Rightarrow> real) ps)"
proof (induction cs)
  case Nil
  show ?case by simp
next
  case (Cons c cs)
  have row: "sum_list (map f (map (\<lambda>p. dadd c p) ps)) = real (length ps) * f c + sum_list (map f ps)"
    by (induction ps) (simp_all add: assms algebra_simps)
  show ?case using Cons row by (simp add: algebra_simps)
qed

lemma length_concat_broadcast:
  "length (concat (map (\<lambda>c. map (\<lambda>p. g c p) ps) cs)) = length cs * length ps"
  by (induction cs) simp_all

lemma dmean_broadcast:
  assumes "length cs = n" "length ps = n" "0 < n"
  shows "val (dmean (concat (map (\<lambda>c. map (\<lambda>p. dadd c p) ps) cs)))
           = (\<Sum>i<n. val (cs ! i) + val (ps ! i)) / real n"
    and "der (dmean (concat (map (\<lambda>c. map (\<lambda>p. dadd c p) ps) cs)))
           = (\<Sum>i<n. der (cs ! i) + der (ps ! i)) / real n"
proof -
  have nth_sum: "sum_list (map f xs) = (\<Sum>i<length xs. f (xs ! i))" for f :: "dual \<Rightarrow> real" and xs
    by (simp add: sum_list_sum_nth atLeast0LessThan)
  have gen: "sum_list (map f (concat (map (\<lambda>c. map (\<lambda>p. dadd c p) ps) cs))) / real (n * n)
      = (\<Sum>i<n. f (cs ! i) + f (ps ! i)) / real n"
    if "\<And>c p. f (dadd c p) = f c + f p" for f :: "dual \<Rightarrow> real"
  proof -
    have "sum_list (map f (concat (map (\<lambda>c. map (\<lambda>p. dadd c p) ps) cs)))
        = real (length ps) * sum_list (map f cs) + real (length cs) * sum_list (map f ps)"
      by (rule sum_list_broadcast [OF that])
    also have "\<dots> = real n * ((\<Sum>i<n. f (cs ! i)) + (\<Sum>i<n. f (ps ! i)))"
      using assms by (simp add: nth_sum algebra_simps)
    finally show ?thesis using assms by (simp add: sum.distrib)
  qed
  show "val (dmean (concat (map (\<lambda>c. map (\<lambda>p. dadd c p) ps) cs)))
           = (\<Sum>i<n. val (cs ! i) + val (ps ! i)) / real n"
    using gen [of val] assms by (simp add: dmean_def dadd_def length_concat_broadcast)
  show "der (dmean (concat (map (\<lambda>c. map (\<lambda>p. dadd c p) ps) cs)))
           = (\<Sum>i<n. der (cs ! i) + der (ps ! i)) / real n"
    using gen [of der] assms by (simp add: dmean_def dadd_def length_concat_broadcast)
qed

lemma loss_func_conv_total:
  "fst (loss_func_conv sm lg fwd a v_t) = loss_func sm lg fwd a v_t"
  by (simp only: loss_func_conv_def loss_func_def Let_def fst_conv)

lemma loss_func_val_der:
  assumes "length fwd = length a" and "length v_t = length a" and "a \<noteq> []"
  shows "val (loss_func sm lg fwd a v_t)
      = (\<Sum>i<length a. (advantage_at fwd v_t i)\<^sup>2
           + - (val (action_log_prob sm lg fwd a i) * advantage_at fwd v_t i)) / real (length a)"
    and "der (loss_func sm lg fwd a v_t)
      = (\<Sum>i<length a. 2 * advantage_at fwd v_t i * (- der (snd (fwd ! i)))
           + - (der (action_log_prob sm lg fwd a i) * advantage_at fwd v_t i)) / real (length a)"
proof -
  let ?n = "length a"
  let ?td = "map2 (\<lambda>t x. dsub (dconst t) x) v_t (map snd fwd)"
  let ?c = "map dpow2 ?td"
  let ?p = "map dneg (map2 dmul (map2 lg (map sm (map fst fwd)) a) (map detach ?td))"
  have n: "0 < ?n" using assms by simp
  have lc: "length ?c = ?n" and lp: "length ?p = ?n" using assms by simp_all
  have td: "?td ! i = Dual (advantage_at fwd v_t i) (- der (snd (fwd ! i)))" if "i < ?n" for i
    using that assms by (simp add: advantage_at_def dsub_def dconst_def)
  have c: "?c ! i = Dual ((advantage_at fwd v_t i)\<^sup>2) (2 * advantage_at fwd v_t i * (- der (snd (fwd ! i))))"
    if "i < ?n" for i
    using that assms td [OF that] by (simp add: dpow2_def)
  have p: "?p ! i = Dual (- (val (action_log_prob sm lg fwd a i) * advantage_at fwd v_t i))
                        (- (der (action_log_prob sm lg fwd a i) * advantage_at fwd v_t i))"
    if "i < ?n" for i
    using that assms td [OF that]
    by (simp add: dneg_def dmul_def detach_def action_log_prob_def)
  have total: "loss_func sm lg fwd a v_t
      = dmean (concat (map (\<lambda>c. map (\<lambda>p. dadd c p) ?p) ?c))"
    by (simp only: loss_func_def Let_def)
  have "val (loss_func sm lg fwd a v_t) = (\<Sum>i<?n. val (?c ! i) + val (?p ! i)) / real ?n"
    unfolding total by (rule dmean_broadcast(1) [OF lc lp n])
  also have "(\<Sum>i<?n. val (?c ! i) + val (?p ! i)) = (\<Sum>i<?n. (advantage_at fwd v_t i)\<^sup>2
           + - (val (action_log_prob sm lg fwd a i) * advantage_at fwd v_t i))"
    by (rule sum.cong) (simp_all only: c p lessThan_iff dual.sel)
  finally show "val (loss_func sm lg fwd a v_t)
      = (\<Sum>i<length a. (advantage_at fwd v_t i)\<^sup>2
           + - (val (action_log_prob sm lg fwd a i) * advantage_at fwd v_t i)) / real (length a)" .
  have "der (loss_func sm lg fwd a v_t) = (\<Sum>i<?n. der (?c ! i) + der (?p ! i)) / real ?n"
    unfolding total by (rule dmean_broadcast(2) [OF lc lp n])
  also have "(\<Sum>i<?n. der (?c ! i) + der (?p ! i)) = (\<Sum>i<?n. 2 * advantage_at fwd v_t i * (- der (snd (fwd ! i)))
           + - (der (action_log_prob sm lg fwd a i) * advantage_at fwd v_t i))"
    by (rule sum.cong) (simp_all only: c p lessThan_iff dual.sel)
  finally show "der (loss_func sm lg fwd a v_t)
      = (\<Sum>i<length a. 2 * advantage_at fwd v_t i * (- der (snd (fwd ! i)))
           + - (der (action_log_prob sm lg fwd a i) * advantage_at fwd v_t i)) / real (length a)" .
qed

text \<open>
  Claim C5. For every non-empty batch of states, actions and target returns of one
  length, the loss that \<open>loss_func\<close> returns (in \<open>a3c_conv.py\<close>: the first component of
  what it returns) is the mean over the batch of value loss plus policy loss, in value
  and in derivative: the advantage is differentiated in the value term and is a
  constant in the policy term. The mean over the \<open>N \<times> N\<close> broadcast matrix that the code
  takes equals the mean over the batch.
\<close>

theorem loss_func_is_batch_mean:
  assumes "length fwd = length a" and "length v_t = length a" and "a \<noteq> []"
  shows "loss_func sm lg fwd a v_t = batch_loss sm lg fwd a v_t
    \<and> fst (loss_func_conv sm lg fwd a v_t) = batch_loss sm lg fwd a v_t"
proof -
  have "loss_func sm lg fwd a v_t = batch_loss sm lg fwd a v_t"
    by (rule dual.expand)
       (simp only: loss_func_val_der [OF assms] batch_loss_def dual.sel simp_thms)
  then show ?thesis by (simp only: loss_func_conv_total simp_thms)
qed

text \<open>
  The theorem at a batch of two samples: advantages \<open>2\<close> and \<open>3\<close>, log-probabilities \<open>-1\<close>,
  so the loss is \<open>((4 + 2) + (9 + 3)) / 2 = 9\<close>; its derivative is
  \<open>((2 \<cdot> 2 \<cdot> (-1) - 1 \<cdot> 2) + (2 \<cdot> 3 \<cdot> 0 - 3 \<cdot> 3)) / 2 = -15/2\<close>.
\<close>

theorem loss_func_is_batch_mean_witness:
  "loss_func toy_softmax toy_log_prob toy_fwd [0, 1] [3, 5] = Dual 9 (- (15 / 2))
   \<and> fst (loss_func_conv toy_softmax toy_log_prob toy_fwd [0, 1] [3, 5]) = Dual 9 (- (15 / 2))"
proof -
  have h1: "length toy_fwd = length [0, 1 :: nat]" by (simp add: toy_fwd_def)
  have h2: "length [3, 5 :: real] = length [0, 1 :: nat]" by simp
  have h3: "[0, 1 :: nat] \<noteq> []" by simp
  have "batch_loss toy_softmax toy_log_prob toy_fwd [0, 1] [3, 5] = Dual 9 (- (15 / 2))"
    by (simp add: batch_loss_def advantage_at_def action_log_prob_def toy_softmax_def
        toy_log_prob_def toy_fwd_def lessThan_Suc power2_eq_square)
  with loss_func_is_batch_mean [OF h1 h2 h3, of toy_softmax toy_log_prob]
  show ?thesis by simp
qed

section \<open>Properties of the synchronization\<close>

lemma load_state_dict_keys:
  assumes "load_state_dict own sd = Inr own'"
  shows "map fst own' = map fst own"
proof -
  from assms have "own' = map (\<lambda>(k, t). (k, case map_of sd k of Some t' \<Rightarrow> t' | None \<Rightarrow> t)) own"
    by (simp add: load_state_dict_def split: if_splits)
  then show ?thesis by (simp add: o_def case_prod_unfold)
qed

lemma map_of_refresh:
  "map_of (map (\<lambda>(k, t). (k, case map_of sd k of Some t' \<Rightarrow> t' | None \<Rightarrow> t)) own) k
     = (if k \<in> set (map fst own) then (case map_of sd k of Some t' \<Rightarrow> Some t' | None \<Rightarrow> map_of own k)
        else None)"
  by (induction own) (auto split: option.splits)

lemma load_state_dict_values:
  assumes "load_state_dict own sd = Inr own'"
  shows "map_of own' = map_of sd"
proof
  fix k
  from assms have keys: "set (map fst own) = set (map fst sd)"
    and own': "own' = map (\<lambda>(k, t). (k, case map_of sd k of Some t' \<Rightarrow> t' | None \<Rightarrow> t)) own"
    by (simp_all add: load_state_dict_def split: if_splits)
  show "map_of own' k = map_of sd k"
  proof (cases "k \<in> set (map fst sd)")
    case True
    then obtain t where "map_of sd k = Some t"
      by (metis map_of_eq_None_iff not_Some_eq set_map)
    with True keys show ?thesis by (simp add: own' map_of_refresh)
  next
    case False
    then have "map_of sd k = None" by (simp add: map_of_eq_None_iff)
    with False keys show ?thesis by (simp add: own' map_of_refresh)
  qed
qed

lemma load_state_dict_error: "load_state_dict own sd = Inl e \<Longrightarrow> e = RuntimeError"
  by (simp add: load_state_dict_def split: if_splits)

text \<open>
  On a non-empty trajectory neither \<open>np.vstack(bs)\<close> nor \<open>ba[0]\<close> fails: \<open>sync\<close> raises
  neither \<open>ValueError\<close> nor \<open>IndexError\<close>.
\<close>

lemma sync_on_nonempty_trajectory:
  assumes "good_call (d, bs, ba, br)"
  shows "sync v T gamma net d s' bs ba br G \<noteq> Inl ValueError
    \<and> sync v T gamma net d s' bs ba br G \<noteq> Inl IndexError"
  using assms
  by (auto simp: sync_def Let_def good_call_def split: sum.splits dest: load_state_dict_error)

lemma toy_sync_basic:
  "sync Basic toy_ops (1 / 2) toy_local True 5 [7] [0] [1] toy_global
     = Inr (None, toy_local', toy_global')"
  by (simp add: sync_def toy_ops_def toy_local_def toy_local'_def toy_global_def toy_global'_def
      Let_def load_state_dict_def buffer_v_target_def initial_R_def insert_commute)


lemma toy_sync_in_episode:
  "sync Conv toy_ops (1 / 2) toy_local True (Suc (Suc 0)) [0, Suc 0] [Suc 0, Suc 0] [1, - 1] toy_global
     = Inr (Some (17 / 8, 17 / 8, 0, - (3 / 4)),
         [(''v2.weight'', \<lparr>shape = [2], entries = [11 / 2, 13 / 2]\<rparr>),
          (''v2.bias'', \<lparr>shape = [1], entries = [9 / 2]\<rparr>)],
         \<lparr>global_network = [(''v2.bias'', \<lparr>shape = [1], entries = [9 / 2]\<rparr>),
                             (''v2.weight'', \<lparr>shape = [2], entries = [11 / 2, 13 / 2]\<rparr>)],
          optimizer = 1, global_grad = Some (- (1 / 2))\<rparr>)"
  by (simp add: sync_def toy_ops_def toy_local_def toy_global_def
      Let_def load_state_dict_def buffer_v_target_def initial_R_def insert_commute loss_func_conv_def
      toy_softmax_def toy_log_prob_def dmean_def dadd_def dsub_def dmul_def dneg_def dpow2_def
      detach_def dconst_def power2_eq_square)

text \<open>
  Claim C6. After every call of \<open>sync\<close> that returns, the local network holds, under
  every parameter name, the tensor that the global network holds under that name, and the
  global network is the one the optimizer step of this call has produced from the
  gradients of this call.
\<close>

theorem sync_refreshes_local:
  assumes "sync v T gamma net done s' bs ba br G = Inr (ret, net', G')"
  shows "map_of net' = map_of (global_network G')
    \<and> map fst net' = map fst net
    \<and> global_network G'
        = snd (opt_step T (optimizer G) (global_network G)
                 (backward T net bs ba
                    (buffer_v_target gamma done (val (snd (forward T net s'))) br)))"
proof -
  let ?target = "buffer_v_target gamma done (val (snd (forward T net s'))) br"
  let ?grad = "backward T net bs ba ?target"
  let ?params = "snd (opt_step T (optimizer G) (global_network G) ?grad)"
  from assms have load: "load_state_dict net ?params = Inr net'"
    and G': "global_network G' = ?params"
    by (auto simp: sync_def Let_def split: if_splits sum.splits)
  from load_state_dict_values [OF load] load_state_dict_keys [OF load] G'
  show ?thesis by simp
qed

text \<open>
  The theorem at the example network: the global parameters \<open>4\<close> and \<open>(5, 6)\<close> become \<open>3\<close>
  and \<open>(4, 5)\<close>, and so do the local ones, which were \<open>0\<close>.
\<close>

theorem sync_refreshes_local_witness:
  "sync Basic toy_ops (1 / 2) toy_local True 5 [7] [0] [1] toy_global
     = Inr (None, toy_local', toy_global')
   \<and> map_of toy_local' = map_of (global_network toy_global')
   \<and> map fst toy_local' = map fst toy_local"
proof -
  from sync_refreshes_local [OF toy_sync_basic]
  have "map_of toy_local' = map_of (global_network toy_global')
      \<and> map fst toy_local' = map fst toy_local"
    by blast
  with toy_sync_basic show ?thesis by blast
qed





section \<open>Properties of the worker\<close>

lemma calls_extend_refl: "calls_extend C w w"
  by (simp add: calls_extend_def)

lemma calls_extend_trans:
  assumes "calls_extend C w w'" and "calls_extend C w' w''"
  shows "calls_extend C w w''"
proof -
  obtain xs where xs: "sync_calls w' = sync_calls w @ xs" "list_all good_call xs"
    using assms(1) unfolding calls_extend_def
    by (metis append_take_drop_id)
  obtain ys where ys: "sync_calls w'' = sync_calls w' @ ys" "list_all good_call ys"
    using assms(2) unfolding calls_extend_def
    by (metis append_take_drop_id)
  obtain as where as: "env_calls w' = env_calls w @ as"
      "list_all (\<lambda>a. a < n_actions C \<or> n_actions C = 0) as"
    using assms(1) unfolding calls_extend_def
    by (metis append_take_drop_id)
  obtain bs where bs: "env_calls w'' = env_calls w' @ bs"
      "list_all (\<lambda>a. a < n_actions C \<or> n_actions C = 0) bs"
    using assms(2) unfolding calls_extend_def
    by (metis append_take_drop_id)
  show ?thesis
    unfolding calls_extend_def using xs ys as bs by simp
qed

lemma after_sync_fields:
  assumes "after_sync v ret w = Inr w'"
  shows "sync_calls w' = sync_calls w" "env_calls w' = env_calls w"
    "buffer_s w' = buffer_s w" "buffer_a w' = buffer_a w" "buffer_r w' = buffer_r w"
    "thread_step w' = thread_step w"
  using assms by (auto simp: after_sync_def split: variant.splits option.splits)

lemma env_action_less: "env_action C a < n_actions C \<or> n_actions C = 0"
  by (auto simp: env_action_def)

lemma loop_body_calls:
  assumes "buffers_aligned w"
  shows "buffers_aligned (flow_state (loop_body v C cfg w))
    \<and> calls_extend C w (flow_state (loop_body v C cfg w))"
proof -
  obtain action e1 where ch: "choose_action C (local_network w) (state w) (world w) = (action, e1)"
    by (cases "choose_action C (local_network w) (state w) (world w)")
  obtain e2 new_state r0 fin where st: "env_step C e1 (env_action C action) = (e2, new_state, r0, fin)"
    by (cases "env_step C e1 (env_action C action)")
  define r where "r = (if fin then - 1 else r0)"
  define w1 where "w1 = w\<lparr>world := e2, env_calls := env_calls w @ [env_action C action],
                 episode_reward := episode_reward w + r,
                 buffer_a := buffer_a w @ [action],
                 buffer_s := buffer_s w @ [state w],
                 buffer_r := buffer_r w @ [r]\<rparr>"
  define w2 where "w2 = w1\<lparr>sync_calls := sync_calls w1 @ [(fin, buffer_s w1, buffer_a w1, buffer_r w1)]\<rparr>"
  define good where "good x \<longleftrightarrow> buffers_aligned x \<and> calls_extend C w x" for x
  have g1: "good w1"
    using assms env_action_less [of C action]
    by (simp add: good_def w1_def buffers_aligned_def calls_extend_def)
  have g2: "good w2"
    using assms env_action_less [of C action]
    by (simp add: good_def w2_def w1_def buffers_aligned_def calls_extend_def good_call_def)
  have upd: "good (x\<lparr>local_network := n, glob := G\<rparr>)" if "good x" for x n G
    using that by (simp add: good_def buffers_aligned_def calls_extend_def)
  have clr: "good (x\<lparr>buffer_s := [], buffer_a := [], buffer_r := []\<rparr>)" if "good x" for x
    using that by (simp add: good_def buffers_aligned_def calls_extend_def)
  have nxt: "good (x\<lparr>state := s, thread_step := t, episode_step := k\<rparr>)" if "good x" for x s t k
    using that by (simp add: good_def buffers_aligned_def calls_extend_def)
  have acc: "good x'" if "good x" and "after_sync v ret x = Inr x'" for x x' ret
    using that after_sync_fields [OF that(2)]
    by (simp add: good_def buffers_aligned_def calls_extend_def)
  have body: "loop_body v C cfg w =
      (if update_global_delay cfg = 0 then Raise ZeroDivisionError w1
       else if thread_step w1 mod update_global_delay cfg = 0 \<or> fin then
         (case synchronize C (local_network w2) fin new_state (buffer_s w2) (buffer_a w2)
                 (buffer_r w2) (glob w2) of
            Inl e \<Rightarrow> Raise e w2
          | Inr (ret, net', G') \<Rightarrow>
              (case after_sync v ret (w2\<lparr>local_network := net', glob := G'\<rparr>) of
                 Inl e \<Rightarrow> Raise e (w2\<lparr>local_network := net', glob := G'\<rparr>)
               | Inr w3 \<Rightarrow>
                   if fin then Break (w3\<lparr>buffer_s := [], buffer_a := [], buffer_r := []\<rparr>)
                   else Next (w3\<lparr>buffer_s := [], buffer_a := [], buffer_r := [],
                          state := new_state,
                          thread_step := thread_step (w3\<lparr>buffer_s := [], buffer_a := [], buffer_r := []\<rparr>) + 1,
                          episode_step := episode_step (w3\<lparr>buffer_s := [], buffer_a := [], buffer_r := []\<rparr>) + 1\<rparr>)))
       else Next (w1\<lparr>state := new_state, thread_step := thread_step w1 + 1,
                       episode_step := episode_step w1 + 1\<rparr>))"
    unfolding loop_body_def ch st prod.case Let_def w2_def w1_def r_def ..
  have "good (flow_state (loop_body v C cfg w))"
  proof (cases "update_global_delay cfg = 0")
    case True
    then show ?thesis by (simp add: body g1)
  next
    case delay: False
    show ?thesis
    proof (cases "thread_step w1 mod update_global_delay cfg = 0 \<or> fin")
      case False
      with delay show ?thesis by (simp add: body nxt [OF g1])
    next
      case True
      show ?thesis
      proof (cases "synchronize C (local_network w2) fin new_state (buffer_s w2) (buffer_a w2)
                 (buffer_r w2) (glob w2)")
        case (Inl e)
        with delay True show ?thesis by (simp add: body g2)
      next
        case (Inr x)
        obtain ret net' G' where x: "x = (ret, net', G')" by (cases x)
        show ?thesis
        proof (cases "after_sync v ret (w2\<lparr>local_network := net', glob := G'\<rparr>)")
          case (Inl e)
          with delay True Inr x show ?thesis by (simp add: body upd [OF g2])
        next
          case after: (Inr w3)
          have g3: "good w3" by (rule acc [OF upd [OF g2] after])
          show ?thesis
          proof (cases fin)
            case True
            with delay Inr x after show ?thesis by (simp add: body clr [OF g3])
          next
            case False
            with delay True Inr x after show ?thesis by (simp add: body nxt [OF clr [OF g3]])
          qed
        qed
      qed
    qed
  qed
  then show ?thesis by (simp add: good_def)
qed

lemma episode_loop_calls:
  assumes "buffers_aligned w"
  shows "buffers_aligned (flow_state (episode_loop v C cfg w))
    \<and> calls_extend C w (flow_state (episode_loop v C cfg w))"
  using assms
proof (induction v C cfg w rule: episode_loop.induct)
  case (1 v C cfg w)
  show ?case
  proof (cases "episode_step w < max_length cfg")
    case False
    then show ?thesis using "1.prems"
      by (simp add: episode_loop.simps [of v C cfg w] calls_extend_refl)
  next
    case True
    note body = loop_body_calls [OF "1.prems", of v C cfg]
    show ?thesis
    proof (cases "loop_body v C cfg w")
      case (Raise e w')
      with True body show ?thesis by (simp add: episode_loop.simps [of v C cfg w])
    next
      case (Break w')
      with True body show ?thesis by (simp add: episode_loop.simps [of v C cfg w])
    next
      case (Next w')
      with body have al: "buffers_aligned w'" and ext: "calls_extend C w w'" by simp_all
      from "1.IH" [OF True Next al]
      have "buffers_aligned (flow_state (episode_loop v C cfg w'))"
        and "calls_extend C w' (flow_state (episode_loop v C cfg w'))" by simp_all
      with ext True Next show ?thesis
        by (simp add: episode_loop.simps [of v C cfg w] calls_extend_trans [of C w w'])
    qed
  qed
qed

lemma start_episode_aligned: "buffers_aligned (start_episode C w)"
  by (simp add: start_episode_def buffers_aligned_def split: prod.splits)

lemma start_episode_calls:
  "sync_calls (start_episode C w) = sync_calls w" "env_calls (start_episode C w) = env_calls w"
  by (simp_all add: start_episode_def split: prod.splits)

lemma report_episode_state:
  "fst (flow_state (report_episode v cfg w sh)) = w"
  by (simp add: report_episode_def split: variant.splits)

lemma run_episode_state:
  "fst (flow_state (run_episode v C cfg (w, sh)))
     = flow_state (episode_loop v C cfg (start_episode C w))"
  by (simp add: run_episode_def report_episode_state split: flow.splits)

lemma run_episode_calls:
  "calls_extend C w (fst (flow_state (run_episode v C cfg (w, sh))))"
proof -
  have "calls_extend C (start_episode C w) (flow_state (episode_loop v C cfg (start_episode C w)))"
    using episode_loop_calls [OF start_episode_aligned] by blast
  then show ?thesis
    by (simp add: run_episode_state calls_extend_def start_episode_calls)
qed

lemma worker_loop_calls:
  "calls_extend C (fst ws) (fst (flow_state (worker_loop v C cfg ws)))"
proof (induction v C cfg ws rule: worker_loop.induct)
  case (1 v C cfg ws)
  show ?case
  proof (cases "global_ep_counter (snd ws) < max_eps cfg")
    case False
    then show ?thesis
      by (simp add: worker_loop.simps [of v C cfg ws] calls_extend_refl)
  next
    case True
    have ep: "calls_extend C (fst ws) (fst (flow_state (run_episode v C cfg ws)))"
      using run_episode_calls [of C "fst ws" v cfg "snd ws"] by simp
    show ?thesis
    proof (cases "run_episode v C cfg ws")
      case (Raise e ws')
      with True ep show ?thesis by (simp add: worker_loop.simps [of v C cfg ws])
    next
      case (Break ws')
      with True ep show ?thesis by (simp add: worker_loop.simps [of v C cfg ws])
    next
      case (Next ws')
      with ep have ext: "calls_extend C (fst ws) (fst ws')" by simp
      from "1.IH" [OF True Next] ext True Next show ?thesis
        by (simp add: worker_loop.simps [of v C cfg ws] calls_extend_trans [of C "fst ws" "fst ws'"])
    qed
  qed
qed

lemma toy_episode_no_sync:
  "episode_loop Basic never_done cfg_no_sync (start_episode never_done worker0) = Next worker_no_sync"
  by (simp add: episode_loop.simps loop_body_def start_episode_def never_done_def cfg_no_sync_def
      worker0_def worker_no_sync_def env_action_def after_sync_def Let_def)


lemma toy_run_episode_no_sync:
  "run_episode Basic never_done cfg_no_sync (worker0, shared0)
     = Next (worker_no_sync,
        \<lparr>global_ep_counter = 1, global_ep_reward = 2,
         res_queue = [Some \<lparr>worker_name = ''w0'', reward = 2, r_episode = Some 1,
                        episode_length = 2, diagnostics = None\<rparr>]\<rparr>)"
  unfolding run_episode_def prod.case toy_episode_no_sync flow.case
  by (simp add: report_episode_def checkpoint_def Let_def shared0_def cfg_no_sync_def
      worker_no_sync_def worker0_def)

text \<open>
  Claim C10. Every call of \<open>synchronize\<close> that a worker makes, during one episode started
  from any state and during a whole run, has a non-empty trajectory: the buffers of
  states, actions and rewards it passes are non-empty and of one length. The calls
  logged before are kept as they were.
\<close>

theorem sync_called_with_nonempty_trajectory:
  "list_all good_call
     (drop (length (sync_calls w)) (sync_calls (fst (flow_state (run_episode v C cfg (w, sh))))))
   \<and> take (length (sync_calls w)) (sync_calls (fst (flow_state (run_episode v C cfg (w, sh)))))
       = sync_calls w
   \<and> list_all good_call
       (drop (length (sync_calls w)) (sync_calls (fst (flow_state (run v C cfg w sh)))))
   \<and> take (length (sync_calls w)) (sync_calls (fst (flow_state (run v C cfg w sh))))
       = sync_calls w"
  using run_episode_calls [of C w v cfg sh]
    worker_loop_calls [of C "(w\<lparr>thread_step := 1\<rparr>, sh)" v cfg]
  by (simp add: calls_extend_def run_def)

text \<open>
  An episode of two steps of the example worker with \<open>sync\<close> as its callback: the one
  call of \<open>sync\<close>, at the terminal step, gets both steps of the trajectory, and the
  record carries the loss that \<open>sync\<close> returned.
\<close>

lemma example_episode_with_sync:
  "sync_calls (fst (flow_state (run_episode Conv done_at_two cfg_no_sync (worker_start, shared0))))
     = [(True, [0, 1], [1, 1], [1, - 1])]
   \<and> res_queue (snd (flow_state (run_episode Conv done_at_two cfg_no_sync (worker_start, shared0))))
     = [Some \<lparr>worker_name = ''w0'', reward = 0, r_episode = None, episode_length = 1,
              diagnostics = Some (17 / 8, 17 / 8, 0, - (3 / 4), 1)\<rparr>]"
  by (simp add: run_episode_def episode_loop.simps loop_body_def start_episode_def done_at_two_def
      cfg_no_sync_def worker_start_def shared0_def env_action_def after_sync_def report_episode_def
      checkpoint_def Let_def toy_sync_in_episode)

text \<open>
  Claim C8. For an environment with at least one action, every action index that a worker
  passes to \<open>env.step\<close>, during one episode started from any state and during a whole run,
  is below \<open>n_actions\<close>; a sampled index of \<open>n_actions\<close> or more is passed as \<open>0\<close>, a smaller
  one as it is.
\<close>

theorem env_step_action_in_range:
  assumes "0 < n_actions C"
  shows "list_all (\<lambda>a. a < n_actions C)
     (drop (length (env_calls w)) (env_calls (fst (flow_state (run_episode v C cfg (w, sh))))))
   \<and> take (length (env_calls w)) (env_calls (fst (flow_state (run_episode v C cfg (w, sh)))))
       = env_calls w
   \<and> list_all (\<lambda>a. a < n_actions C)
       (drop (length (env_calls w)) (env_calls (fst (flow_state (run v C cfg w sh)))))
   \<and> take (length (env_calls w)) (env_calls (fst (flow_state (run v C cfg w sh))))
       = env_calls w
   \<and> env_action C a < n_actions C
   \<and> (if n_actions C \<le> a then env_action C a = 0 else env_action C a = a)"
  using assms run_episode_calls [of C w v cfg sh]
    worker_loop_calls [of C "(w\<lparr>thread_step := 1\<rparr>, sh)" v cfg]
  by (simp add: calls_extend_def run_def env_action_def)

text \<open>
  The theorem at the example worker: the policy head draws \<open>5\<close> twice, the environment has
  two actions and is stepped with \<open>0\<close> twice.
\<close>

theorem env_step_action_in_range_witness:
  "0 < n_actions never_done
   \<and> list_all (\<lambda>a. a < n_actions never_done)
       (drop (length (env_calls worker0))
          (env_calls (fst (flow_state (run_episode Basic never_done cfg_no_sync (worker0, shared0))))))
   \<and> env_calls (fst (flow_state (run_episode Basic never_done cfg_no_sync (worker0, shared0)))) = [0, 0]
   \<and> env_action never_done 5 < n_actions never_done
   \<and> env_action never_done 5 = 0"
proof -
  have pos: "0 < n_actions never_done" by (simp add: never_done_def)
  have calls: "env_calls (fst (flow_state (run_episode Basic never_done cfg_no_sync (worker0, shared0)))) = [0, 0]"
    by (simp add: toy_run_episode_no_sync worker_no_sync_def)
  have act: "env_action never_done 5 = 0" by (simp add: env_action_def never_done_def)
  from env_step_action_in_range [OF pos, of worker0 Basic cfg_no_sync shared0 5] pos calls act
  show ?thesis by simp
qed









text \<open>
  In \<open>a3c_conv.py\<close> the same episode, with no synchronization at all, ends in the division
  by \<open>gradient_updates = 0\<close>.
\<close>

lemma conv_cap_without_sync_raises:
  "run_episode Conv never_done cfg_no_sync (worker0, shared0)
     = Raise ZeroDivisionError (worker_no_sync, shared0)"
  by (simp add: run_episode_def report_episode_def episode_loop.simps loop_body_def
      start_episode_def never_done_def cfg_no_sync_def worker0_def worker_no_sync_def
      env_action_def after_sync_def Let_def)

section \<open>Properties of the result-draining loop\<close>






section \<open>Properties of the environment factory draw\<close>

lemma upto_nat: "[0..int n - 1] = map int [0..<n]"
proof (induction n)
  case 0
  show ?case by simp
next
  case (Suc n)
  have "[0..int (Suc n) - 1] = [0..int n - 1] @ [int n]"
    using upto_rec2 [of 0 "int n"] by simp
  then show ?case using Suc by simp
qed

text \<open>
  In \<open>a3c.py\<close> the equally likely outcomes of the draw are the factories of the list, each
  once: the draw is uniform over the full list.
\<close>

lemma basic_env_choice_uniform:
  "fs \<noteq> [] \<Longrightarrow> worker_env_factory Basic (Many fs) = Inr fs"
  by (simp add: worker_env_factory_def worker_env_index_def py_randint_def upto_nat map_nth o_def)

text \<open>
  Claim C9 at its failing inputs. In \<open>a3c_conv.py\<close> the last factory of the list is never
  drawn (from two factories the first is always taken), and a list of one factory makes
  the draw raise \<open>ValueError\<close>; \<open>a3c.py\<close> draws from the full list.
\<close>

theorem conv_env_choice_skips_last:
  "worker_env_factory Conv (Many [f0, f1]) = Inr [f0]
   \<and> worker_env_factory Conv (Many [f0, f1, f2]) = Inr [f0, f1]
   \<and> worker_env_factory Conv (Many [f0]) = Inl ValueError
   \<and> worker_env_factory Basic (Many [f0, f1]) = Inr [f0, f1]"
  by (simp add: worker_env_factory_def worker_env_index_def np_randint_def py_randint_def upto.simps)

end
